theory Spec2Isabelle
  imports Main "HOL-Library.Word"
begin

section \<open>Data model of pkg/scan/scan.go\<close>

text \<open>
  Go's \<open>error\<close> values are modelled by their message. \<open>net.IP\<close> is restricted to the
  nil address and 4-byte IPv4 addresses, the only addresses an IPv4 SYN scan handles.
\<close>

datatype error = Err string

datatype ip = NilIP | IP4 "8 word" "8 word" "8 word" "8 word"

type_synonym TCPPort = "16 word"

text \<open>\<open>time.Duration\<close> counts nanoseconds.\<close>

definition Millisecond :: int where
  "Millisecond = 1000000"

definition Second :: int where
  "Second = 1000000000"

text \<open>Go's integer division truncates towards zero.\<close>

definition go_div :: "int \<Rightarrow> int \<Rightarrow> int" where
  "go_div a b = sgn a * sgn b * (\<bar>a\<bar> div \<bar>b\<bar>)"

subsection \<open>Formatting: the verbs \<open>%d\<close> and \<open>%s\<close> of \<open>fmt\<close>\<close>

definition digit :: "nat \<Rightarrow> char" where
  "digit d = (if d = 0 then CHR ''0'' else if d = 1 then CHR ''1'' else if d = 2 then CHR ''2''
     else if d = 3 then CHR ''3'' else if d = 4 then CHR ''4'' else if d = 5 then CHR ''5''
     else if d = 6 then CHR ''6'' else if d = 7 then CHR ''7'' else if d = 8 then CHR ''8''
     else CHR ''9'')"

fun fmt_nat :: "nat \<Rightarrow> string" where
  "fmt_nat n = (if n < 10 then [digit n] else fmt_nat (n div 10) @ [digit (n mod 10)])"

definition fmt_d :: "int \<Rightarrow> string" where
  "fmt_d i = (if i < 0 then CHR ''-'' # fmt_nat (nat (- i)) else fmt_nat (nat i))"

text \<open>\<open>net.IP.String\<close>: \<open><nil>\<close> for an address of length 0, dotted decimal for IPv4.\<close>

fun ip_String :: "ip \<Rightarrow> string" where
  "ip_String NilIP = ''<nil>''"
| "ip_String (IP4 a b c d) =
     fmt_nat (unat a) @ ''.'' @ fmt_nat (unat b) @ ''.'' @ fmt_nat (unat c) @ ''.'' @ fmt_nat (unat d)"

subsection \<open>Structs\<close>

record Interface =
  Name :: string
  HardwareAddr :: "8 word list option"

record Scanner =
  timeout :: int
  retries :: int
  rate :: int
  networkInterface :: Interface
  host :: ip
  srcIP :: ip

record IPv4 =
  SrcIP :: ip
  DstIP :: ip
  Version :: "8 word"
  TTL :: "8 word"
  Protocol :: "8 word"

record TCPOption =
  OptionType :: "8 word"
  OptionLength :: "8 word"
  OptionData :: "8 word list"

record TCP =
  SrcPort :: TCPPort
  DstPort :: TCPPort
  Seq :: "32 word"
  SYN :: bool
  ACK :: bool
  RST :: bool
  Window :: "16 word"
  Options :: "TCPOption list"

subsection \<open>The process-global pseudo-random number generator\<close>

text \<open>
  The state of \<open>math/rand\<close>'s global source is the seed it was last given and the number
  of draws made since. The generator itself is a parameter: \<open>gen s k\<close> is the raw value
  behind draw number \<open>k\<close> after seeding with \<open>s\<close>; \<open>Intn n\<close> reduces it into \<open>[0, n)\<close>.
  Both calls of \<open>rand.Intn\<close> in the program have a positive constant bound.
\<close>

record rng_state =
  rng_seed :: int
  rng_pos :: nat

type_synonym generator = "int \<Rightarrow> nat \<Rightarrow> nat"

definition Seed :: "int \<Rightarrow> rng_state" where
  "Seed s = \<lparr>rng_seed = s, rng_pos = 0\<rparr>"

definition Intn :: "generator \<Rightarrow> int \<Rightarrow> rng_state \<Rightarrow> int \<times> rng_state" where
  "Intn gen n st = (int (gen (rng_seed st) (rng_pos st)) mod n, st\<lparr>rng_pos := rng_pos st + 1\<rparr>)"

section \<open>Capture pipeline (the second goroutine of \<open>Scan\<close>)\<close>

datatype LayerType = LayerTypeEthernet | LayerTypeIPv4 | LayerTypeTCP

text \<open>
  One iteration of the read loop sees either an error of \<open>handle.ReadPacketData\<close> other
  than \<open>io.EOF\<close>, an error of \<open>parser.DecodeLayers\<close>, or a decoded packet: the list
  \<open>decoded\<close> and the contents of the layer structs \<open>ip4\<close> and \<open>tcp\<close> after decoding.
  \<open>io.EOF\<close> is the end of the list of reads.
\<close>

datatype read_result = ReadError | DecodeError | Packet "LayerType list" IPv4 TCP

type_synonym Flow = "ip \<times> ip"

definition NetworkFlow :: "IPv4 \<Rightarrow> Flow" where
  "NetworkFlow ip4 = (SrcIP ip4, DstIP ip4)"

text \<open>
  The loop \<open>for _, layerType := range decoded\<close> with its \<open>switch\<close>. A \<open>continue\<close> inside
  the \<open>switch\<close> continues this loop, the innermost enclosing \<open>for\<close>: it goes on with the
  next decoded layer. The result is the list of values sent on \<open>openChan\<close>.
\<close>

fun layer_loop :: "Flow \<Rightarrow> int \<Rightarrow> IPv4 \<Rightarrow> TCP \<Rightarrow> LayerType list \<Rightarrow> int list" where
  "layer_loop ipFlow rawPort ip4 tcp [] = []"
| "layer_loop ipFlow rawPort ip4 tcp (layerType # rest) =
     (case layerType of
        LayerTypeIPv4 \<Rightarrow>
          (if NetworkFlow ip4 \<noteq> ipFlow
           then layer_loop ipFlow rawPort ip4 tcp rest
           else layer_loop ipFlow rawPort ip4 tcp rest)
      | LayerTypeTCP \<Rightarrow>
          (if DstPort tcp \<noteq> word_of_int rawPort
           then layer_loop ipFlow rawPort ip4 tcp rest
           else if SYN tcp \<and> ACK tcp
           then uint (SrcPort tcp) # layer_loop ipFlow rawPort ip4 tcp rest
           else layer_loop ipFlow rawPort ip4 tcp rest)
      | LayerTypeEthernet \<Rightarrow> layer_loop ipFlow rawPort ip4 tcp rest)"

fun capture :: "Flow \<Rightarrow> int \<Rightarrow> read_result list \<Rightarrow> int list" where
  "capture ipFlow rawPort [] = []"
| "capture ipFlow rawPort (ReadError # reads) = capture ipFlow rawPort reads"
| "capture ipFlow rawPort (DecodeError # reads) = capture ipFlow rawPort reads"
| "capture ipFlow rawPort (Packet decoded ip4 tcp # reads) =
     layer_loop ipFlow rawPort ip4 tcp decoded @ capture ipFlow rawPort reads"

text \<open>The collector goroutine: \<open>results[open] = struct{}{}\<close> for every value received.\<close>

definition collector :: "int list \<Rightarrow> int set" where
  "collector opens = fold insert opens {}"

section \<open>Emission engine (the third goroutine of \<open>Scan\<close>)\<close>

text \<open>
  \<open>write k\<close> is what the \<open>k\<close>-th call of \<open>s.send\<close> returns: the byte count and the error.
  Every call of \<open>s.send\<close> is logged: the loop variable \<open>port\<close>, the variable \<open>randSeq\<close>
  and the TCP layer it serializes.
\<close>

type_synonym writer = "nat \<Rightarrow> int \<times> error option"

type_synonym send_call = "int \<times> int \<times> TCP"

text \<open>The loop \<open>for i := 0; i < s.retries; i++\<close>, by the number of iterations left.\<close>

fun retry_loop :: "writer \<Rightarrow> send_call \<Rightarrow> nat \<Rightarrow> send_call list \<Rightarrow> send_call list" where
  "retry_loop write c 0 sent = sent"
| "retry_loop write c (Suc left) sent =
     (case write (length sent) of
        (n, err) \<Rightarrow>
          if n > 0 \<and> err = None then sent @ [c]
          else retry_loop write c left (sent @ [c]))"

text \<open>The loop \<open>for port := range ports\<close>: state is \<open>randSeq\<close>, the PRNG, the log of sends.\<close>

fun emitter ::
  "generator \<Rightarrow> writer \<Rightarrow> int \<Rightarrow> TCP \<Rightarrow> int list \<Rightarrow> int \<times> rng_state \<times> send_call list
     \<Rightarrow> int \<times> rng_state \<times> send_call list" where
  "emitter gen write n_retries tcp [] st = st"
| "emitter gen write n_retries tcp (port # ports) (randSeq, rng, sent) =
     (case Intn gen 5 rng of
        (r, rng') \<Rightarrow>
          let randSeq' = randSeq + (1 + r);
              tcp' = tcp\<lparr>Seq := word_of_int randSeq', DstPort := word_of_int port\<rparr>
          in emitter gen write n_retries tcp' ports
               (randSeq', rng', retry_loop write (port, randSeq', tcp') (nat n_retries) sent))"

section \<open>Scan coordinator\<close>

text \<open>
  The calls \<open>Scan\<close> makes on the capture library, the port reservation and the raw
  socket, in program order. \<open>AfterFuncClose d\<close> is
  \<open>time.AfterFunc(d, func() { handle.Close(); conn.Close() })\<close>.
\<close>

datatype action =
    NewInactiveHandle string
  | SetSnapLen int
  | SetTimeout int
  | SetImmediateMode bool
  | Activate
  | GetFreePort
  | SetBPFFilter string
  | ListenPacket string string
  | HandleClose
  | ConnClose
  | CleanUp
  | AfterFuncClose int
  | TimerStop

datatype event = Ok action | Failed action error

text \<open>What the environment answers to \<open>Scan\<close>.\<close>

record os_env =
  os_NewInactiveHandle :: "error option"
  os_SetTimeout :: "error option"
  os_Activate :: "error option"
  os_GetFreePort :: "error + int"
  os_SetBPFFilter :: "string \<Rightarrow> error option"
  os_ListenPacket :: "error option"
  os_reads :: "read_result list"
  os_write :: writer
  os_gen :: generator

text \<open>Lines 74 to 115: the setup, with the early returns. On success, \<open>rawPort\<close>.\<close>

definition scan_setup :: "os_env \<Rightarrow> Scanner \<Rightarrow> event list \<times> (error + int)" where
  "scan_setup os s =
     (case os_NewInactiveHandle os of
        Some err \<Rightarrow> ([Failed (NewInactiveHandle (Name (networkInterface s))) err], Inl err)
      | None \<Rightarrow>
     (let tr1 = [Ok (NewInactiveHandle (Name (networkInterface s))), Ok (SetSnapLen 65536)];
          readTimeout = 1500 * Millisecond
      in case os_SetTimeout os of
        Some err \<Rightarrow> (tr1 @ [Failed (SetTimeout readTimeout) err, Ok CleanUp], Inl err)
      | None \<Rightarrow>
     (let tr2 = tr1 @ [Ok (SetTimeout readTimeout), Ok (SetImmediateMode True)]
      in case os_Activate os of
        Some err \<Rightarrow> (tr2 @ [Failed Activate err, Ok CleanUp], Inl err)
      | None \<Rightarrow>
     (let tr3 = tr2 @ [Ok Activate]
      in case os_GetFreePort os of
        Inl err \<Rightarrow> (tr3 @ [Failed GetFreePort err, Ok HandleClose, Ok CleanUp], Inl err)
      | Inr rawPort \<Rightarrow>
     (let tr4 = tr3 @ [Ok GetFreePort];
          bpf = ''tcp and port '' @ fmt_d rawPort @ '' and ip host '' @ ip_String (host s)
      in case os_SetBPFFilter os bpf of
        Some err \<Rightarrow> (tr4 @ [Failed (SetBPFFilter bpf) err, Ok HandleClose, Ok CleanUp], Inl err)
      | None \<Rightarrow>
     (let tr5 = tr4 @ [Ok (SetBPFFilter bpf)]
      in case os_ListenPacket os of
        Some err \<Rightarrow>
          (tr5 @ [Failed (ListenPacket ''ip4:tcp'' ''0.0.0.0'') err, Ok HandleClose, Ok CleanUp],
           Inl err)
      | None \<Rightarrow> (tr5 @ [Ok (ListenPacket ''ip4:tcp'' ''0.0.0.0'')], Inr rawPort)))))))"

text \<open>Lines 233 to 251: closing the handle and the socket, and the return.\<close>

definition closing :: "int \<Rightarrow> event list" where
  "closing t =
     (if t > 0 then [Ok (AfterFuncClose (10 * Second)), Ok CleanUp, Ok TimerStop]
      else [Ok HandleClose, Ok ConnClose, Ok CleanUp])"

text \<open>
  How a call of \<open>Scan\<close> ends: it returns, it panics, or it blocks forever.
\<close>

datatype 'a outcome = Returns 'a | Panics | Blocks

record scan_out =
  ret :: "(error + int set) outcome"
  trace :: "event list"
  sent :: "send_call list"
  rng_after :: rng_state

text \<open>Lines 139 to 153: the TCP layer of the probes, before the first port.\<close>

definition tcp_layer :: "int \<Rightarrow> int \<Rightarrow> TCP" where
  "tcp_layer rawPort randSeq =
     (let tcpOption = \<lparr>OptionType = 2, OptionLength = 4, OptionData = [0x12, 0x34]\<rparr>
      in \<lparr>SrcPort = word_of_int rawPort, DstPort = 0, Seq = word_of_int randSeq,
          SYN = True, ACK = False, RST = False, Window = 1024, Options = [tcpOption]\<rparr>)"

text \<open>
  \<open>Scan\<close>. The three goroutines are run one after the other on what the environment
  delivers to each: the reads of the capture handle until \<open>io.EOF\<close>, and the results of
  the writes on the raw socket. The argument \<open>wordlist\<close> lists the keys of the map in
  the order \<open>range\<close> yields them.

  \<open>time.Second / time.Duration(s.rate)\<close> panics when \<open>s.rate\<close> is 0. \<open>time.Tick\<close> returns
  a nil channel for a duration that is not positive, and \<open><-limiter\<close> then blocks
  forever: the emitter stops at its first send, and the coordinator stops at
  \<open>ports <- port\<close> for the second port.
\<close>

definition Scan :: "os_env \<Rightarrow> Scanner \<Rightarrow> int list \<Rightarrow> rng_state \<Rightarrow> scan_out" where
  "Scan os s wordlist rng0 =
     (case scan_setup os s of
        (tr, Inl err) \<Rightarrow> \<lparr>ret = Returns (Inl err), trace = tr, sent = [], rng_after = rng0\<rparr>
      | (tr, Inr rawPort) \<Rightarrow>
     (let results = collector (capture (host s, srcIP s) rawPort (os_reads os))
      in case Intn (os_gen os) 8999999999 rng0 of
        (r, rng1) \<Rightarrow>
     (let randSeq = 1000000000 + r;
          tcp = tcp_layer rawPort randSeq
      in if rate s = 0
         then \<lparr>ret = Panics, trace = tr, sent = [], rng_after = rng1\<rparr>
         else if go_div Second (rate s) \<le> 0 \<and> retries s > 0 \<and> wordlist \<noteq> []
         then (case Intn (os_gen os) 5 rng1 of
                 (r', rng2) \<Rightarrow>
                   if length wordlist > 1
                   then \<lparr>ret = Blocks, trace = tr, sent = [], rng_after = rng2\<rparr>
                   else \<lparr>ret = Returns (Inr results), trace = tr @ closing (timeout s),
                          sent = [], rng_after = rng2\<rparr>)
         else (case emitter (os_gen os) (os_write os) (retries s) tcp wordlist (randSeq, rng1, []) of
                 (randSeq', rng2, log) \<Rightarrow>
                   \<lparr>ret = Returns (Inr results), trace = tr @ closing (timeout s),
                     sent = log, rng_after = rng2\<rparr>))))"

text \<open>The resources a trace leaves open.\<close>

datatype resource = InactiveHandle | Handle | Conn

fun held_step :: "event \<Rightarrow> resource set \<Rightarrow> resource set" where
  "held_step (Ok (NewInactiveHandle n)) R = insert InactiveHandle R"
| "held_step (Ok Activate) R = insert Handle R"
| "held_step (Ok (ListenPacket n a)) R = insert Conn R"
| "held_step (Ok HandleClose) R = R - {Handle}"
| "held_step (Ok ConnClose) R = R - {Conn}"
| "held_step (Ok CleanUp) R = R - {InactiveHandle}"
| "held_step (Ok (AfterFuncClose d)) R = R - {Handle, Conn}"
| "held_step e R = R"

definition held :: "event list \<Rightarrow> resource set" where
  "held tr = fold held_step tr {}"

section \<open>Route prober and \<open>NewScanner\<close>\<close>

text \<open>
  What the \<open>net\<close> package answers. \<open>net_DialUDP\<close> is either the dial error, or the
  connection's \<open>LocalAddr()\<close>: \<open>Some\<close> of its IP when it is a \<open>*net.UDPAddr\<close>.
  \<open>net_Addrs i\<close> lists \<open>v.String()\<close> for the addresses of interface \<open>i\<close> (none when
  \<open>Addrs\<close> fails: its error is ignored).
\<close>

record net_env =
  net_ResolveUDPAddr :: "string \<Rightarrow> error option"
  net_DialUDP :: "error + ip option"
  net_Interfaces :: "error + Interface list"
  net_InterfaceByName :: "string \<Rightarrow> error + Interface"
  net_Addrs :: "Interface \<Rightarrow> string list"

text \<open>
  \<open>getSourceIP\<close>. The \<open>err\<close> of \<open>if con, err := net.DialUDP(...)\<close> is a new variable of
  the \<open>if\<close> statement; the final \<open>return nil, err\<close> returns the outer one, the result
  of \<open>net.ResolveUDPAddr\<close>.
\<close>

definition getSourceIP :: "net_env \<Rightarrow> ip \<Rightarrow> ip \<times> error option" where
  "getSourceIP net dstip =
     (let err = net_ResolveUDPAddr net (ip_String dstip @ '':12345'')
      in if err \<noteq> None then (NilIP, err)
         else (case net_DialUDP net of
                 Inr (Some udpaddr_IP) \<Rightarrow> (udpaddr_IP, None)
               | Inr None \<Rightarrow> (NilIP, err)
               | Inl dial_err \<Rightarrow> (NilIP, err)))"

definition HasPrefix :: "string \<Rightarrow> string \<Rightarrow> bool" where
  "HasPrefix str pre = (length pre \<le> length str \<and> take (length pre) str = pre)"

fun addr_loop :: "string \<Rightarrow> string list \<Rightarrow> bool" where
  "addr_loop address [] = False"
| "addr_loop address (v # addresses) =
     (if HasPrefix v (address @ ''/'') then True else addr_loop address addresses)"

fun iface_loop :: "net_env \<Rightarrow> string \<Rightarrow> Interface list \<Rightarrow> error + Interface" where
  "iface_loop net address [] = Inl (Err (''no interface found for ip '' @ address))"
| "iface_loop net address (i # interfaces) =
     (case net_InterfaceByName net (Name i) of
        Inl err \<Rightarrow> Inl err
      | Inr byNameInterface \<Rightarrow>
          if addr_loop address (net_Addrs net byNameInterface) then Inr byNameInterface
          else iface_loop net address interfaces)"

definition getInterfaceFromIP :: "net_env \<Rightarrow> ip \<Rightarrow> error + Interface" where
  "getInterfaceFromIP net a =
     (case net_Interfaces net of
        Inl err \<Rightarrow> Inl err
      | Inr interfaces \<Rightarrow> iface_loop net (ip_String a) interfaces)"

text \<open>
  \<open>NewScanner\<close>. \<open>now\<close> is \<open>time.Now().UnixNano()\<close>; the state of the global PRNG is
  passed in and returned.
\<close>

definition NewScanner ::
  "net_env \<Rightarrow> int \<Rightarrow> rng_state \<Rightarrow> ip \<Rightarrow> int \<Rightarrow> int \<Rightarrow> int \<Rightarrow> rng_state \<times> (error + Scanner)" where
  "NewScanner net now rng h t n_retries n_rate =
     (let rng' = Seed now
      in case getSourceIP net h of
           (src, Some err) \<Rightarrow> (rng', Inl err)
         | (src, None) \<Rightarrow>
             (case getInterfaceFromIP net src of
                Inl err \<Rightarrow> (rng', Inl err)
              | Inr iface \<Rightarrow>
                  (rng', Inr \<lparr>timeout = t, retries = n_retries, rate = n_rate,
                              networkInterface = iface, host = h, srcIP = src\<rparr>)))"

section \<open>Concrete inputs\<close>

text \<open>
  A scanner of target 10.0.0.1 from 10.0.0.2 on \<open>eth0\<close>, an environment in which every
  setup step succeeds and the port 40000 is reserved, and captured packets addressed to
  that port.
\<close>

definition ex_scanner :: "int \<Rightarrow> Scanner" where
  "ex_scanner n_retries =
     \<lparr>timeout = 1, retries = n_retries, rate = 100,
      networkInterface = \<lparr>Name = ''eth0'', HardwareAddr = Some [0, 1, 2, 3, 4, 5]\<rparr>,
      host = IP4 10 0 0 1, srcIP = IP4 10 0 0 2\<rparr>"

definition ex_ip4 :: "ip \<Rightarrow> IPv4" where
  "ex_ip4 src = \<lparr>SrcIP = src, DstIP = IP4 10 0 0 2, Version = 4, TTL = 64, Protocol = 6\<rparr>"

text \<open>
  A packet in the other direction, from the scanning host 10.0.0.2 to the target: the
  filter \<open>tcp and port 40000 and ip host 10.0.0.1\<close> admits it, the capture sees the
  interface's outgoing packets too.
\<close>

definition ex_ip4_outgoing :: IPv4 where
  "ex_ip4_outgoing =
     \<lparr>SrcIP = IP4 10 0 0 2, DstIP = IP4 10 0 0 1, Version = 4, TTL = 64, Protocol = 6\<rparr>"

definition ex_tcp :: "TCPPort \<Rightarrow> bool \<Rightarrow> bool \<Rightarrow> bool \<Rightarrow> TCP" where
  "ex_tcp sport syn ack rst =
     \<lparr>SrcPort = sport, DstPort = 40000, Seq = 7, SYN = syn, ACK = ack, RST = rst,
      Window = 512, Options = []\<rparr>"

definition ex_synack :: "ip \<Rightarrow> TCPPort \<Rightarrow> read_result" where
  "ex_synack src sport =
     Packet [LayerTypeEthernet, LayerTypeIPv4, LayerTypeTCP] (ex_ip4 src) (ex_tcp sport True True False)"

definition ex_synack_outgoing :: "TCPPort \<Rightarrow> read_result" where
  "ex_synack_outgoing sport =
     Packet [LayerTypeEthernet, LayerTypeIPv4, LayerTypeTCP] ex_ip4_outgoing
       (ex_tcp sport True True False)"

definition write_ok :: writer where
  "write_ok k = (24, None)"

definition write_fail_first :: writer where
  "write_fail_first k = (if k = 0 then (0, Some (Err ''sendto: no buffer space available'')) else (24, None))"

definition gen_zero :: generator where
  "gen_zero sd k = 0"

definition gen_wrap :: generator where
  "gen_wrap sd k = (if k = 0 then 3294967290 else if k = 1 then 4 else 0)"

text \<open>A generator whose draws depend on the seed.\<close>

definition gen_seeded :: generator where
  "gen_seeded sd k = nat sd + k"

definition ex_os :: "read_result list \<Rightarrow> writer \<Rightarrow> generator \<Rightarrow> os_env" where
  "ex_os reads write gen =
     \<lparr>os_NewInactiveHandle = None, os_SetTimeout = None, os_Activate = None,
      os_GetFreePort = Inr 40000, os_SetBPFFilter = (\<lambda>f. None), os_ListenPacket = None,
      os_reads = reads, os_write = write, os_gen = gen\<rparr>"

definition ex_os_no_port :: os_env where
  "ex_os_no_port = (ex_os [] write_ok gen_zero)\<lparr>os_GetFreePort := Inl (Err ''listen tcp: too many open files'')\<rparr>"

definition ex_net_unreachable :: net_env where
  "ex_net_unreachable =
     \<lparr>net_ResolveUDPAddr = (\<lambda>a. None),
      net_DialUDP = Inl (Err ''dial udp: connect: network is unreachable''),
      net_Interfaces = Inr [\<lparr>Name = ''lo'', HardwareAddr = None\<rparr>],
      net_InterfaceByName = (\<lambda>n. Inr \<lparr>Name = n, HardwareAddr = None\<rparr>),
      net_Addrs = (\<lambda>i. [''127.0.0.1/8''])\<rparr>"

definition ex_net_ok :: net_env where
  "ex_net_ok =
     \<lparr>net_ResolveUDPAddr = (\<lambda>a. None),
      net_DialUDP = Inr (Some (IP4 10 0 0 2)),
      net_Interfaces = Inr [\<lparr>Name = ''lo'', HardwareAddr = None\<rparr>,
                            \<lparr>Name = ''eth0'', HardwareAddr = Some [0, 1, 2, 3, 4, 5]\<rparr>],
      net_InterfaceByName = (\<lambda>n. Inr \<lparr>Name = n, HardwareAddr = (if n = ''lo'' then None else Some [0, 1, 2, 3, 4, 5])\<rparr>),
      net_Addrs = (\<lambda>i. if Name i = ''lo'' then [''127.0.0.1/8''] else [''10.0.0.2/24''])\<rparr>"

text \<open>Projections of a logged send.\<close>

definition call_port :: "send_call \<Rightarrow> int" where
  "call_port c = fst c"

definition call_randSeq :: "send_call \<Rightarrow> int" where
  "call_randSeq c = fst (snd c)"

definition call_tcp :: "send_call \<Rightarrow> TCP" where
  "call_tcp c = snd (snd c)"

definition call_Seq :: "send_call \<Rightarrow> 32 word" where
  "call_Seq c = Seq (call_tcp c)"

text \<open>
  How \<open>randSeq\<close> moves between two consecutive sends: unchanged within the retries of
  one port, advanced by 1 to 5 from one port to the next.
\<close>

definition seq_step :: "send_call \<Rightarrow> send_call \<Rightarrow> bool" where
  "seq_step c c' =
     (if call_port c = call_port c' then call_randSeq c' = call_randSeq c
      else 1 \<le> call_randSeq c' - call_randSeq c \<and> call_randSeq c' - call_randSeq c \<le> 5)"

section \<open>Properties of the capture pipeline\<close>

lemma set_layer_loop:
  "set (layer_loop ipFlow rawPort ip4 tcp decoded) =
     (if LayerTypeTCP \<in> set decoded \<and> DstPort tcp = word_of_int rawPort \<and> SYN tcp \<and> ACK tcp
      then {uint (SrcPort tcp)} else {})"
  by (induction decoded) (auto split: LayerType.splits)

lemma set_capture:
  "set (capture ipFlow rawPort reads) =
     {uint (SrcPort tcp) | decoded ip4 tcp.
        Packet decoded ip4 tcp \<in> set reads \<and> LayerTypeTCP \<in> set decoded \<and>
        DstPort tcp = word_of_int rawPort \<and> SYN tcp \<and> ACK tcp}"
proof (induction ipFlow rawPort reads rule: capture.induct)
  case (4 ipFlow rawPort decoded ip4 tcp reads)
  then show ?case by (auto simp: set_layer_loop split: if_splits)
qed auto

lemma fold_insert_set: "fold insert xs A = set xs \<union> A"
  by (induction xs arbitrary: A) auto

lemma collector_set: "collector opens = set opens"
  by (simp add: collector_def fold_insert_set)

text \<open>
  Both branches of the flow test go on with the next layer, so neither the flow of the
  packet nor the flow of the scan has any effect on what is sent on \<open>openChan\<close>.
\<close>

lemma layer_loop_ignores_flow:
  "layer_loop ipFlow rawPort ip4 tcp decoded = layer_loop ipFlow' rawPort ip4' tcp decoded"
  by (induction decoded) (auto split: LayerType.splits)

text \<open>
  Claim C5. For a decoded packet with a TCP layer whose destination port is the scan's
  source port, the capture pipeline emits \<open>tcp.SrcPort\<close> as an open-port event if and
  only if both SYN and ACK are set; every other flag combination emits nothing.
\<close>

theorem syn_ack_emits_source_port:
  assumes "LayerTypeTCP \<in> set decoded" and "DstPort tcp = word_of_int rawPort"
  shows "set (capture ipFlow rawPort [Packet decoded ip4 tcp]) =
           (if SYN tcp \<and> ACK tcp then {uint (SrcPort tcp)} else {})"
  using assms by (simp add: set_layer_loop)

theorem syn_ack_emits_source_port_witness:
  "LayerTypeTCP \<in> set [LayerTypeIPv4, LayerTypeTCP] \<and>
   DstPort (ex_tcp 80 True True False) = word_of_int 40000 \<and>
   set (capture (IP4 10 0 0 1, IP4 10 0 0 2) 40000
          [Packet [LayerTypeIPv4, LayerTypeTCP] (ex_ip4 (IP4 10 0 0 1)) (ex_tcp 80 True True False)]) = {80}"
proof -
  have h1: "LayerTypeTCP \<in> set [LayerTypeIPv4, LayerTypeTCP]" by simp
  have h2: "DstPort (ex_tcp 80 True True False) = word_of_int 40000" by (simp add: ex_tcp_def)
  show ?thesis
    using h1 h2 syn_ack_emits_source_port [OF h1 h2, of "(IP4 10 0 0 1, IP4 10 0 0 2)" "ex_ip4 (IP4 10 0 0 1)"]
    by (simp add: ex_tcp_def)
qed

section \<open>Properties of the setup and of the result set\<close>

lemma scan_setup_Inr:
  assumes "scan_setup os s = (tr, Inr rawPort)"
  shows "os_NewInactiveHandle os = None" "os_SetTimeout os = None" "os_Activate os = None"
    "os_GetFreePort os = Inr rawPort" "os_ListenPacket os = None"
    "os_SetBPFFilter os (''tcp and port '' @ fmt_d rawPort @ '' and ip host '' @ ip_String (host s)) = None"
    "tr = [Ok (NewInactiveHandle (Name (networkInterface s))), Ok (SetSnapLen 65536),
           Ok (SetTimeout (1500 * Millisecond)), Ok (SetImmediateMode True), Ok Activate,
           Ok GetFreePort,
           Ok (SetBPFFilter (''tcp and port '' @ fmt_d rawPort @ '' and ip host '' @ ip_String (host s))),
           Ok (ListenPacket ''ip4:tcp'' ''0.0.0.0'')]"
  using assms by (auto simp: scan_setup_def Let_def split: option.splits sum.splits)

lemma Scan_Returns_results:
  assumes "ret (Scan os s wordlist rng) = Returns (Inr results)"
  shows "\<exists>tr rawPort. scan_setup os s = (tr, Inr rawPort) \<and>
           results = collector (capture (host s, srcIP s) rawPort (os_reads os))"
proof (cases "scan_setup os s")
  case (Pair tr r)
  show ?thesis
  proof (cases r)
    case (Inl err)
    with Pair assms show ?thesis by (simp add: Scan_def)
  next
    case (Inr rawPort)
    with Pair assms show ?thesis
      by (auto simp: Scan_def Let_def split: prod.splits if_splits)
  qed
qed

lemma ex_scan_unprobed_port:
  "ret (Scan (ex_os [ex_synack (IP4 10 0 0 1) 443] write_ok gen_zero) (ex_scanner 1) [80] (Seed 1))
     = Returns (Inr {443})"
  by (simp add: Scan_def scan_setup_def ex_os_def ex_scanner_def collector_def ex_synack_def
      ex_ip4_def ex_tcp_def NetworkFlow_def Intn_def Seed_def gen_zero_def go_div_def Second_def
      write_ok_def closing_def)

text \<open>
  Claim C1, as stated: the result set of \<open>Scan\<close> is a subset of the wordlist. It fails:
  with the wordlist \<open>{80}\<close>, a SYN/ACK from port 443 of the target to the scan's source
  port puts 443 into the result set.
\<close>

theorem scan_result_not_subset_counterexample:
  "ret (Scan (ex_os [ex_synack (IP4 10 0 0 1) 443] write_ok gen_zero) (ex_scanner 1) [80] (Seed 1))
     = Returns (Inr {443})
   \<and> \<not> {443} \<subseteq> set [80 :: int]"
  using ex_scan_unprobed_port by simp

text \<open>
  Claim C1, amended. Every port in the result set of \<open>Scan\<close> is the TCP source port of a
  captured packet that decoded with a TCP layer whose destination port is the scan's
  source port and whose SYN and ACK flags are both set; and every such packet whose IPv4
  flow is (target, source) puts its source port into the result set. The wordlist is not
  consulted.
\<close>

theorem scan_results_are_syn_ack_sources:
  assumes "ret (Scan os s wordlist rng) = Returns (Inr results)"
  shows "\<exists>rawPort. os_GetFreePort os = Inr rawPort \<and>
           results \<subseteq> {uint (SrcPort tcp) | decoded ip4 tcp.
              Packet decoded ip4 tcp \<in> set (os_reads os) \<and> LayerTypeTCP \<in> set decoded \<and>
              DstPort tcp = word_of_int rawPort \<and> SYN tcp \<and> ACK tcp} \<and>
           {uint (SrcPort tcp) | decoded ip4 tcp.
              Packet decoded ip4 tcp \<in> set (os_reads os) \<and> LayerTypeTCP \<in> set decoded \<and>
              NetworkFlow ip4 = (host s, srcIP s) \<and>
              DstPort tcp = word_of_int rawPort \<and> SYN tcp \<and> ACK tcp} \<subseteq> results"
proof -
  from Scan_Returns_results [OF assms] obtain tr rawPort where
    st: "scan_setup os s = (tr, Inr rawPort)" and
    r: "results = collector (capture (host s, srcIP s) rawPort (os_reads os))" by blast
  have "results = {uint (SrcPort tcp) | decoded ip4 tcp.
              Packet decoded ip4 tcp \<in> set (os_reads os) \<and> LayerTypeTCP \<in> set decoded \<and>
              DstPort tcp = word_of_int rawPort \<and> SYN tcp \<and> ACK tcp}"
    using r by (simp add: collector_set set_capture)
  with scan_setup_Inr(4) [OF st] show ?thesis by blast
qed

theorem scan_results_are_syn_ack_sources_witness:
  "\<exists>rawPort. os_GetFreePort (ex_os [ex_synack (IP4 10 0 0 1) 443] write_ok gen_zero) = Inr rawPort \<and>
      {443} \<subseteq> {uint (SrcPort tcp) | decoded ip4 tcp.
         Packet decoded ip4 tcp \<in> set (os_reads (ex_os [ex_synack (IP4 10 0 0 1) 443] write_ok gen_zero)) \<and>
         LayerTypeTCP \<in> set decoded \<and> DstPort tcp = word_of_int rawPort \<and> SYN tcp \<and> ACK tcp} \<and>
      {uint (SrcPort tcp) | decoded ip4 tcp.
         Packet decoded ip4 tcp \<in> set (os_reads (ex_os [ex_synack (IP4 10 0 0 1) 443] write_ok gen_zero)) \<and>
         LayerTypeTCP \<in> set decoded \<and>
         NetworkFlow ip4 = (host (ex_scanner 1), srcIP (ex_scanner 1)) \<and>
         DstPort tcp = word_of_int rawPort \<and> SYN tcp \<and> ACK tcp} \<subseteq> {443}"
  by (rule scan_results_are_syn_ack_sources [OF ex_scan_unprobed_port])

text \<open>
  Claim C2. A captured packet whose IPv4 flow is not (target, source) should be dropped
  whole. The code does not: the \<open>continue\<close> of the flow test continues the loop over the
  decoded layers, so the TCP layer of the same packet is examined next. Here a SYN/ACK
  from 10.0.0.9, which is not the target 10.0.0.1, reports port 80 as open; so does a
  SYN/ACK that the scanning host itself sends to port 40000 of the target.
\<close>

theorem flow_check_does_not_drop:
  "NetworkFlow (ex_ip4 (IP4 10 0 0 9)) \<noteq> (host (ex_scanner 1), srcIP (ex_scanner 1)) \<and>
   ret (Scan (ex_os [ex_synack (IP4 10 0 0 9) 80] write_ok gen_zero) (ex_scanner 1) [80] (Seed 1))
     = Returns (Inr {80}) \<and>
   NetworkFlow ex_ip4_outgoing \<noteq> (host (ex_scanner 1), srcIP (ex_scanner 1)) \<and>
   ret (Scan (ex_os [ex_synack_outgoing 80] write_ok gen_zero) (ex_scanner 1) [80] (Seed 1))
     = Returns (Inr {80})"
  by (simp add: Scan_def scan_setup_def ex_os_def ex_scanner_def collector_def ex_synack_def
      ex_synack_outgoing_def ex_ip4_def ex_ip4_outgoing_def ex_tcp_def NetworkFlow_def Intn_def
      Seed_def gen_zero_def go_div_def Second_def write_ok_def closing_def)

section \<open>Setup failures and the closing of the capture\<close>

lemma scan_setup_fails:
  assumes "os_NewInactiveHandle os \<noteq> None \<or> os_SetTimeout os \<noteq> None \<or> os_Activate os \<noteq> None \<or>
           (case os_GetFreePort os of
              Inl err \<Rightarrow> True
            | Inr rawPort \<Rightarrow>
                os_SetBPFFilter os
                  (''tcp and port '' @ fmt_d rawPort @ '' and ip host '' @ ip_String (host s)) \<noteq> None) \<or>
           os_ListenPacket os \<noteq> None"
  shows "\<exists>tr err. scan_setup os s = (tr, Inl err) \<and> held tr = {}"
  using assms
  by (auto simp: scan_setup_def held_def Let_def split: option.splits sum.splits)

lemma held_after_setup:
  assumes "scan_setup os s = (tr, Inr rawPort)"
  shows "held tr = {InactiveHandle, Handle, Conn}"
  using scan_setup_Inr(7) [OF assms] by (auto simp: held_def)

lemma held_closing:
  assumes "held tr = {InactiveHandle, Handle, Conn}"
  shows "held (tr @ closing t) = {}"
  using assms by (auto simp: held_def closing_def)

text \<open>
  Claim C7. If a setup step of \<open>Scan\<close> fails (creation of the inactive handle, its
  timeout, its activation, the reservation of the port, the BPF filter, the raw socket),
  \<open>Scan\<close> returns an error and no result set, nothing is sent, and every resource
  acquired before the failing step has been released.
\<close>

theorem setup_failure_releases_resources:
  assumes "os_NewInactiveHandle os \<noteq> None \<or> os_SetTimeout os \<noteq> None \<or> os_Activate os \<noteq> None \<or>
           (case os_GetFreePort os of
              Inl err \<Rightarrow> True
            | Inr rawPort \<Rightarrow>
                os_SetBPFFilter os
                  (''tcp and port '' @ fmt_d rawPort @ '' and ip host '' @ ip_String (host s)) \<noteq> None) \<or>
           os_ListenPacket os \<noteq> None"
  shows "\<exists>err. ret (Scan os s wordlist rng) = Returns (Inl err) \<and>
           held (trace (Scan os s wordlist rng)) = {} \<and> sent (Scan os s wordlist rng) = []"
proof -
  from scan_setup_fails [OF assms] obtain tr err where
    "scan_setup os s = (tr, Inl err)" and "held tr = {}" by blast
  then show ?thesis by (simp add: Scan_def)
qed

theorem setup_failure_releases_resources_witness:
  "os_GetFreePort ex_os_no_port = Inl (Err ''listen tcp: too many open files'') \<and>
   ret (Scan ex_os_no_port (ex_scanner 1) [80] (Seed 1)) = Returns (Inl (Err ''listen tcp: too many open files'')) \<and>
   held (trace (Scan ex_os_no_port (ex_scanner 1) [80] (Seed 1))) = {} \<and>
   sent (Scan ex_os_no_port (ex_scanner 1) [80] (Seed 1)) = []"
proof -
  have h: "os_GetFreePort ex_os_no_port = Inl (Err ''listen tcp: too many open files'')"
    by (simp add: ex_os_no_port_def ex_os_def)
  have "\<exists>err. ret (Scan ex_os_no_port (ex_scanner 1) [80] (Seed 1)) = Returns (Inl err) \<and>
           held (trace (Scan ex_os_no_port (ex_scanner 1) [80] (Seed 1))) = {} \<and>
           sent (Scan ex_os_no_port (ex_scanner 1) [80] (Seed 1)) = []"
    by (rule setup_failure_releases_resources) (simp add: h)
  moreover have "ret (Scan ex_os_no_port (ex_scanner 1) [80] (Seed 1)) =
      Returns (Inl (Err ''listen tcp: too many open files''))"
    by (simp add: Scan_def scan_setup_def ex_os_no_port_def ex_os_def)
  ultimately show ?thesis using h by simp
qed

lemma Scan_timeout_positive:
  assumes "0 < t1" and "0 < t2"
  shows "Scan os (s\<lparr>timeout := t1\<rparr>) wordlist rng = Scan os (s\<lparr>timeout := t2\<rparr>) wordlist rng"
proof -
  have c: "closing t1 = closing t2" using assms by (simp add: closing_def)
  have st: "scan_setup os (s\<lparr>timeout := t1\<rparr>) = scan_setup os (s\<lparr>timeout := t2\<rparr>)"
    by (simp add: scan_setup_def Let_def split: option.splits sum.splits)
  show ?thesis
    unfolding Scan_def st
    by (simp add: c Let_def split: prod.splits sum.splits)
qed

lemma Scan_Returns_trace:
  assumes "ret (Scan os s wordlist rng) = Returns (Inr results)"
  shows "trace (Scan os s wordlist rng) = fst (scan_setup os s) @ closing (timeout s)"
proof (cases "scan_setup os s")
  case (Pair tr r)
  show ?thesis
  proof (cases r)
    case (Inl err)
    with Pair assms show ?thesis by (simp add: Scan_def)
  next
    case (Inr rawPort)
    with Pair assms show ?thesis
      by (auto simp: Scan_def Let_def split: prod.splits if_splits)
  qed
qed

text \<open>A scan that returns a result set has released the handle and the socket as well.\<close>

lemma Scan_Returns_releases:
  assumes "ret (Scan os s wordlist rng) = Returns (Inr results)"
  shows "held (trace (Scan os s wordlist rng)) = {}"
proof -
  from Scan_Returns_results [OF assms] obtain tr rawPort where
    st: "scan_setup os s = (tr, Inr rawPort)" by blast
  have "trace (Scan os s wordlist rng) = tr @ closing (timeout s)"
    using Scan_Returns_trace [OF assms] st by simp
  with held_closing [OF held_after_setup [OF st]] show ?thesis by simp
qed

text \<open>
  Claim C8. \<open>Scan\<close> behaves the same for any two positive timeouts on the same inputs:
  the handle and the socket are closed by a timer of 10 seconds armed after the
  emission; with a timeout of 0 they are closed at once instead.
\<close>

theorem timeout_magnitude_is_not_observable:
  assumes "0 < t1" and "0 < t2"
  shows "Scan os (s\<lparr>timeout := t1\<rparr>) wordlist rng = Scan os (s\<lparr>timeout := t2\<rparr>) wordlist rng \<and>
         closing t1 = [Ok (AfterFuncClose (10 * Second)), Ok CleanUp, Ok TimerStop] \<and>
         closing t2 = closing t1 \<and>
         closing 0 = [Ok HandleClose, Ok ConnClose, Ok CleanUp] \<and>
         (ret (Scan os (s\<lparr>timeout := t1\<rparr>) wordlist rng) = Returns (Inr results) \<longrightarrow>
            trace (Scan os (s\<lparr>timeout := t1\<rparr>) wordlist rng) =
              fst (scan_setup os s) @ [Ok (AfterFuncClose (10 * Second)), Ok CleanUp, Ok TimerStop]) \<and>
         (ret (Scan os (s\<lparr>timeout := 0\<rparr>) wordlist rng) = Returns (Inr results) \<longrightarrow>
            trace (Scan os (s\<lparr>timeout := 0\<rparr>) wordlist rng) =
              fst (scan_setup os s) @ [Ok HandleClose, Ok ConnClose, Ok CleanUp])"
proof -
  have st: "scan_setup os (s\<lparr>timeout := t\<rparr>) = scan_setup os s" for t
    by (simp add: scan_setup_def Let_def split: option.splits sum.splits)
  show ?thesis
    using assms Scan_timeout_positive [OF assms, of os s wordlist rng]
    by (auto simp: closing_def st dest!: Scan_Returns_trace)
qed

theorem timeout_magnitude_is_not_observable_witness:
  "(0::int) < 1 \<and> (0::int) < 3600000000000 \<and>
   Scan (ex_os [ex_synack (IP4 10 0 0 1) 443] write_ok gen_zero) ((ex_scanner 1)\<lparr>timeout := 1\<rparr>) [80] (Seed 1)
     = Scan (ex_os [ex_synack (IP4 10 0 0 1) 443] write_ok gen_zero) ((ex_scanner 1)\<lparr>timeout := 3600000000000\<rparr>) [80] (Seed 1) \<and>
   closing 1 = [Ok (AfterFuncClose (10 * Second)), Ok CleanUp, Ok TimerStop] \<and>
   closing 3600000000000 = closing 1 \<and>
   closing 0 = [Ok HandleClose, Ok ConnClose, Ok CleanUp] \<and>
   trace (Scan (ex_os [ex_synack (IP4 10 0 0 1) 443] write_ok gen_zero) ((ex_scanner 1)\<lparr>timeout := 1\<rparr>) [80] (Seed 1)) =
     fst (scan_setup (ex_os [ex_synack (IP4 10 0 0 1) 443] write_ok gen_zero) (ex_scanner 1)) @
       [Ok (AfterFuncClose (10 * Second)), Ok CleanUp, Ok TimerStop]"
proof -
  have h1: "(0::int) < 1" and h2: "(0::int) < 3600000000000" by simp_all
  have e: "(ex_scanner 1)\<lparr>timeout := 1\<rparr> = ex_scanner 1" by (simp add: ex_scanner_def)
  have r: "ret (Scan (ex_os [ex_synack (IP4 10 0 0 1) 443] write_ok gen_zero)
              ((ex_scanner 1)\<lparr>timeout := 1\<rparr>) [80] (Seed 1)) = Returns (Inr {443})"
    unfolding e by (rule ex_scan_unprobed_port)
  note T = timeout_magnitude_is_not_observable [OF h1 h2,
        of "ex_os [ex_synack (IP4 10 0 0 1) 443] write_ok gen_zero" "ex_scanner 1" "[80]" "Seed 1" "{443}"]
  from T r h1 h2 show ?thesis by blast
qed

section \<open>\<open>NewScanner\<close>: the global PRNG and the route prober\<close>

lemma fst_NewScanner: "fst (NewScanner net now rng h t n_retries n_rate) = Seed now"
  by (simp add: NewScanner_def Let_def split: prod.splits option.splits sum.splits)

lemma addr_loop_False:
  assumes "list_all (\<lambda>v. \<not> HasPrefix v (address @ ''/'')) addresses"
  shows "addr_loop address addresses = False"
  using assms by (induction addresses) auto

lemma iface_loop_none:
  assumes "list_all (\<lambda>i. case net_InterfaceByName net (Name i) of
                          Inl e \<Rightarrow> False
                        | Inr b \<Rightarrow> list_all (\<lambda>v. \<not> HasPrefix v (address @ ''/'')) (net_Addrs net b)) ifs"
  shows "iface_loop net address ifs = Inl (Err (''no interface found for ip '' @ address))"
  using assms by (induction ifs) (auto simp: addr_loop_False split: sum.splits)

text \<open>
  Claim C10. When the address resolves and the UDP dial fails, \<open>getSourceIP\<close> returns a
  nil IP with a nil error; \<open>NewScanner\<close> goes on to \<open>getInterfaceFromIP\<close> with the nil
  IP and returns what that returns. When the interfaces can be listed and none of their
  addresses starts with \<open><nil>/\<close>, that is the error \<open>no interface found for ip <nil>\<close>.
\<close>

theorem dial_failure_is_swallowed:
  assumes "net_ResolveUDPAddr net (ip_String h @ '':12345'') = None"
    and "net_DialUDP net = Inl dial_err"
  shows "getSourceIP net h = (NilIP, None) \<and>
         snd (NewScanner net now rng h t n_retries n_rate) =
           (case getInterfaceFromIP net NilIP of
              Inl err \<Rightarrow> Inl err
            | Inr iface \<Rightarrow> Inr \<lparr>timeout = t, retries = n_retries, rate = n_rate,
                                networkInterface = iface, host = h, srcIP = NilIP\<rparr>) \<and>
         ((\<exists>ifs. net_Interfaces net = Inr ifs \<and>
             list_all (\<lambda>i. case net_InterfaceByName net (Name i) of
                              Inl e \<Rightarrow> False
                            | Inr b \<Rightarrow> list_all (\<lambda>v. \<not> HasPrefix v ''<nil>/'') (net_Addrs net b)) ifs) \<longrightarrow>
          snd (NewScanner net now rng h t n_retries n_rate) = Inl (Err ''no interface found for ip <nil>''))"
proof -
  have g: "getSourceIP net h = (NilIP, None)"
    using assms by (simp add: getSourceIP_def)
  have n: "snd (NewScanner net now rng h t n_retries n_rate) =
           (case getInterfaceFromIP net NilIP of
              Inl err \<Rightarrow> Inl err
            | Inr iface \<Rightarrow> Inr \<lparr>timeout = t, retries = n_retries, rate = n_rate,
                                networkInterface = iface, host = h, srcIP = NilIP\<rparr>)"
    by (simp add: NewScanner_def g split: sum.splits)
  have "getInterfaceFromIP net NilIP = Inl (Err ''no interface found for ip <nil>'')"
    if "net_Interfaces net = Inr ifs"
      and "list_all (\<lambda>i. case net_InterfaceByName net (Name i) of
                              Inl e \<Rightarrow> False
                            | Inr b \<Rightarrow> list_all (\<lambda>v. \<not> HasPrefix v ''<nil>/'') (net_Addrs net b)) ifs"
    for ifs
    using that iface_loop_none [where net = net and address = "''<nil>''" and ifs = ifs] by (simp add: getInterfaceFromIP_def cong: sum.case_cong)
  with g n show ?thesis by auto
qed

theorem dial_failure_is_swallowed_witness:
  "net_ResolveUDPAddr ex_net_unreachable (ip_String (IP4 10 0 0 1) @ '':12345'') = None \<and>
   net_DialUDP ex_net_unreachable = Inl (Err ''dial udp: connect: network is unreachable'') \<and>
   getSourceIP ex_net_unreachable (IP4 10 0 0 1) = (NilIP, None) \<and>
   snd (NewScanner ex_net_unreachable 42 (Seed 1) (IP4 10 0 0 1) 1 1 100) =
     Inl (Err ''no interface found for ip <nil>'')"
proof -
  have h1: "net_ResolveUDPAddr ex_net_unreachable (ip_String (IP4 10 0 0 1) @ '':12345'') = None"
    by (simp add: ex_net_unreachable_def)
  have h2: "net_DialUDP ex_net_unreachable = Inl (Err ''dial udp: connect: network is unreachable'')"
    by (simp add: ex_net_unreachable_def)
  have h3: "\<exists>ifs. net_Interfaces ex_net_unreachable = Inr ifs \<and>
             list_all (\<lambda>i. case net_InterfaceByName ex_net_unreachable (Name i) of
                              Inl e \<Rightarrow> False
                            | Inr b \<Rightarrow> list_all (\<lambda>v. \<not> HasPrefix v ''<nil>/'') (net_Addrs ex_net_unreachable b)) ifs"
    by (simp add: ex_net_unreachable_def HasPrefix_def)
  note T = dial_failure_is_swallowed [OF h1 h2, of 42 "Seed 1" 1 1 100]
  from T h1 h2 h3 show ?thesis by blast
qed

section \<open>Properties of the emission engine\<close>

lemma retry_loop_replicate:
  "\<exists>k. retry_loop write c n lg = lg @ replicate k c \<and> k \<le> n \<and> (0 < n \<longrightarrow> 0 < k)"
proof (induction n arbitrary: lg)
  case 0
  then show ?case by simp
next
  case (Suc n)
  obtain m err where w: "write (length lg) = (m, err)" by (cases "write (length lg)")
  show ?case
  proof (cases "m > 0 \<and> err = None")
    case True
    with w have "retry_loop write c (Suc n) lg = lg @ replicate 1 c" by simp
    then show ?thesis by (intro exI [of _ 1]) simp
  next
    case False
    from Suc.IH [of "lg @ [c]"] obtain k where
      k: "retry_loop write c n (lg @ [c]) = (lg @ [c]) @ replicate k c" "k \<le> n" by blast
    from False w have "retry_loop write c (Suc n) lg = retry_loop write c n (lg @ [c])" by auto
    with k have "retry_loop write c (Suc n) lg = lg @ replicate (Suc k) c" by simp
    with k(2) show ?thesis by (intro exI [of _ "Suc k"]) simp
  qed
qed

lemma Intn_5_range:
  assumes "Intn gen 5 rng = (r, rng')"
  shows "0 \<le> r" "r < 5"
  using assms by (auto simp: Intn_def)

lemma successively_replicate:
  "P x x \<Longrightarrow> successively P (replicate k x)"
proof (induction k)
  case 0
  then show ?case by simp
next
  case (Suc k)
  then show ?case by (cases k) (auto simp: successively_Cons)
qed

lemma seq_step_refl: "seq_step c c"
  by (simp add: seq_step_def)

lemma emitter_no_retries:
  assumes "nat n_retries = 0"
  shows "snd (snd (emitter gen write n_retries tcp ports (randSeq, rng, lg))) = lg"
  using assms
  by (induction ports arbitrary: tcp randSeq rng) (auto simp: Let_def split: prod.splits)

lemma emitter_successively:
  assumes "0 < nat n_retries" and "distinct ports"
    and "successively seq_step lg"
    and "\<forall>c\<in>set lg. call_port c \<notin> set ports"
    and "lg \<noteq> [] \<longrightarrow> call_randSeq (last lg) = randSeq"
  shows "successively seq_step (snd (snd (emitter gen write n_retries tcp ports (randSeq, rng, lg))))"
  using assms
proof (induction ports arbitrary: tcp randSeq rng lg)
  case Nil
  then show ?case by simp
next
  case (Cons port ports)
  obtain r rng1 where i: "Intn gen 5 rng = (r, rng1)" by (cases "Intn gen 5 rng")
  note rr = Intn_5_range [OF i]
  define randSeq1 where "randSeq1 = randSeq + (1 + r)"
  define tcp1 where "tcp1 = tcp\<lparr>Seq := word_of_int randSeq1, DstPort := word_of_int port\<rparr>"
  define c where "c = (port, randSeq1, tcp1)"
  from retry_loop_replicate [of "write" c "nat n_retries" lg] Cons.prems(1)
  obtain k where k: "retry_loop write c (nat n_retries) lg = lg @ replicate k c" "0 < k"
    by blast
  have step: "emitter gen write n_retries tcp (port # ports) (randSeq, rng, lg) =
              emitter gen write n_retries tcp1 ports (randSeq1, rng1, lg @ replicate k c)"
    using i k(1) by (simp add: Let_def randSeq1_def tcp1_def c_def)
  have cp: "call_port c = port" and cr: "call_randSeq c = randSeq1"
    by (simp_all add: c_def call_port_def call_randSeq_def)
  have link: "seq_step (last lg) c" if "lg \<noteq> []"
  proof -
    from that Cons.prems(4) have "call_port (last lg) \<noteq> port" by (metis last_in_set list.set_intros(1))
    moreover from that Cons.prems(5) have "call_randSeq (last lg) = randSeq" by simp
    ultimately show ?thesis using rr by (simp add: seq_step_def cp cr randSeq1_def)
  qed
  have sr: "successively seq_step (replicate k c)"
    by (rule successively_replicate) (rule seq_step_refl)
  have hr: "hd (replicate k c) = c" using k(2) by (cases k) auto
  have s1: "successively seq_step (lg @ replicate k c)"
    using Cons.prems(3) sr hr link by (auto simp: successively_append_iff)
  have s2: "\<forall>c'\<in>set (lg @ replicate k c). call_port c' \<notin> set ports"
    using Cons.prems(2,4) cp by auto
  have s3: "lg @ replicate k c \<noteq> [] \<longrightarrow> call_randSeq (last (lg @ replicate k c)) = randSeq1"
    using k(2) cr by (cases k) auto
  from Cons.prems(2) have d: "distinct ports" by simp
  from Cons.IH [OF Cons.prems(1) d s1 s2 s3] step show ?case by simp
qed

lemma emitter_calls:
  assumes "SrcPort tcp = sp" and "lo \<le> randSeq"
    and "\<forall>c\<in>set lg. SrcPort (call_tcp c) = sp \<and> Seq (call_tcp c) = word_of_int (call_randSeq c) \<and>
            DstPort (call_tcp c) = word_of_int (call_port c) \<and> lo < call_randSeq c"
  shows "\<forall>c\<in>set (snd (snd (emitter gen write n_retries tcp ports (randSeq, rng, lg)))).
            SrcPort (call_tcp c) = sp \<and> Seq (call_tcp c) = word_of_int (call_randSeq c) \<and>
            DstPort (call_tcp c) = word_of_int (call_port c) \<and> lo < call_randSeq c"
  using assms
proof (induction ports arbitrary: tcp randSeq rng lg)
  case Nil
  then show ?case by simp
next
  case (Cons port ports)
  obtain r rng1 where i: "Intn gen 5 rng = (r, rng1)" by (cases "Intn gen 5 rng")
  note rr = Intn_5_range [OF i]
  define randSeq1 where "randSeq1 = randSeq + (1 + r)"
  define tcp1 where "tcp1 = tcp\<lparr>Seq := word_of_int randSeq1, DstPort := word_of_int port\<rparr>"
  define c where "c = (port, randSeq1, tcp1)"
  from retry_loop_replicate [of "write" c "nat n_retries" lg]
  obtain k where k: "retry_loop write c (nat n_retries) lg = lg @ replicate k c"
    by blast
  have step: "emitter gen write n_retries tcp (port # ports) (randSeq, rng, lg) =
              emitter gen write n_retries tcp1 ports (randSeq1, rng1, lg @ replicate k c)"
    using i k(1) by (simp add: Let_def randSeq1_def tcp1_def c_def)
  have p1: "SrcPort tcp1 = sp" using Cons.prems(1) by (simp add: tcp1_def)
  have p2: "lo \<le> randSeq1" using Cons.prems(2) rr by (simp add: randSeq1_def)
  have pc: "SrcPort (call_tcp c) = sp \<and> Seq (call_tcp c) = word_of_int (call_randSeq c) \<and>
            DstPort (call_tcp c) = word_of_int (call_port c) \<and> lo < call_randSeq c"
    using Cons.prems(1,2) rr
    by (simp add: c_def call_tcp_def call_randSeq_def call_port_def tcp1_def randSeq1_def)
  have p3: "\<forall>c\<in>set (lg @ replicate k c). SrcPort (call_tcp c) = sp \<and>
            Seq (call_tcp c) = word_of_int (call_randSeq c) \<and>
            DstPort (call_tcp c) = word_of_int (call_port c) \<and> lo < call_randSeq c"
    using Cons.prems(3) pc by auto
  from Cons.IH [OF p1 p2 p3] step show ?case by simp
qed

lemma emitter_appends:
  "\<exists>ext. snd (snd (emitter gen write n_retries tcp ports (randSeq, rng, lg))) = lg @ ext"
proof (induction ports arbitrary: tcp randSeq rng lg)
  case Nil
  then show ?case by simp
next
  case (Cons port ports)
  obtain r rng1 where i: "Intn gen 5 rng = (r, rng1)" by (cases "Intn gen 5 rng")
  define c where "c = (port, randSeq + (1 + r), tcp\<lparr>Seq := word_of_int (randSeq + (1 + r)), DstPort := word_of_int port\<rparr>)"
  from retry_loop_replicate [of "write" c "nat n_retries" lg]
  obtain k where k: "retry_loop write c (nat n_retries) lg = lg @ replicate k c" by blast
  from Cons.IH [of "tcp\<lparr>Seq := word_of_int (randSeq + (1 + r)), DstPort := word_of_int port\<rparr>"
      "randSeq + (1 + r)" rng1 "lg @ replicate k c"]
  obtain ext where "snd (snd (emitter gen write n_retries
      (tcp\<lparr>Seq := word_of_int (randSeq + (1 + r)), DstPort := word_of_int port\<rparr>) ports
      (randSeq + (1 + r), rng1, lg @ replicate k c))) = (lg @ replicate k c) @ ext" by blast
  with i k show ?case by (simp add: Let_def c_def)
qed

lemma emitter_first_call:
  assumes "0 < nat n_retries" and "ports \<noteq> []"
  shows "\<exists>r. 0 \<le> r \<and> r < 5 \<and>
           call_randSeq (hd (snd (snd (emitter gen write n_retries tcp ports (randSeq, rng, []))))) =
             randSeq + (1 + r) \<and>
           snd (snd (emitter gen write n_retries tcp ports (randSeq, rng, []))) \<noteq> []"
proof -
  from assms(2) obtain port rest where p: "ports = port # rest" by (cases ports) auto
  obtain r rng1 where i: "Intn gen 5 rng = (r, rng1)" by (cases "Intn gen 5 rng")
  note rr = Intn_5_range [OF i]
  define tcp1 where "tcp1 = tcp\<lparr>Seq := word_of_int (randSeq + (1 + r)), DstPort := word_of_int port\<rparr>"
  define c where "c = (port, randSeq + (1 + r), tcp1)"
  from retry_loop_replicate [of "write" c "nat n_retries" "[]"] assms(1)
  obtain k where k: "retry_loop write c (nat n_retries) [] = replicate k c" "0 < k" by auto
  from emitter_appends [of gen "write" n_retries tcp1 rest "randSeq + (1 + r)" rng1 "replicate k c"]
  obtain ext where e: "snd (snd (emitter gen write n_retries tcp1 rest
      (randSeq + (1 + r), rng1, replicate k c))) = replicate k c @ ext" by blast
  have "snd (snd (emitter gen write n_retries tcp ports (randSeq, rng, []))) = replicate k c @ ext"
    using p i k(1) e by (simp add: Let_def c_def tcp1_def)
  moreover have "hd (replicate k c @ ext) = c" "replicate k c @ ext \<noteq> []"
    using k(2) by (cases k; simp)+
  ultimately show ?thesis using rr by (auto simp: c_def call_randSeq_def intro!: exI [of _ r])
qed


lemma Scan_sent_cases:
  obtains (nothing) "sent (Scan os s wordlist rng) = []"
  | (emitted) tr rawPort where "scan_setup os s = (tr, Inr rawPort)"
      "sent (Scan os s wordlist rng) =
         snd (snd (emitter (os_gen os) (os_write os) (retries s)
           (tcp_layer rawPort (1000000000 + fst (Intn (os_gen os) 8999999999 rng))) wordlist
           (1000000000 + fst (Intn (os_gen os) 8999999999 rng), snd (Intn (os_gen os) 8999999999 rng), [])))"
proof (cases "scan_setup os s")
  case (Pair tr r)
  show ?thesis
  proof (cases r)
    case (Inl err)
    with Pair have "sent (Scan os s wordlist rng) = []" by (simp add: Scan_def)
    then show ?thesis by (rule nothing)
  next
    case (Inr rawPort)
    show ?thesis
    proof (cases "sent (Scan os s wordlist rng) = []")
      case True
      then show ?thesis by (rule nothing)
    next
      case False
      with Pair Inr have "sent (Scan os s wordlist rng) =
         snd (snd (emitter (os_gen os) (os_write os) (retries s)
           (tcp_layer rawPort (1000000000 + fst (Intn (os_gen os) 8999999999 rng))) wordlist
           (1000000000 + fst (Intn (os_gen os) 8999999999 rng), snd (Intn (os_gen os) 8999999999 rng), [])))"
        by (auto simp: Scan_def Let_def split: prod.splits if_splits)
      with Pair Inr show ?thesis by (intro emitted) auto
    qed
  qed
qed

lemma Intn_seed_range:
  "0 \<le> fst (Intn gen 8999999999 rng)" "fst (Intn gen 8999999999 rng) < 8999999999"
  by (simp_all add: Intn_def)

text \<open>
  Claim C4, amended. Within one scan the variable \<open>randSeq\<close>, an \<open>int\<close> of 64 bits, starts
  from a seed in \<open>[10^9, 10^10)\<close>, is advanced by 1 to 5 for every port and is the same for
  the retries of one port; the sequence number in the TCP header of a probe is
  \<open>randSeq\<close> modulo \<open>2^32\<close>. So the header value of the next port's probe is the previous
  one plus 1 to 5 modulo \<open>2^32\<close>: greater, except where the sum passes \<open>2^32\<close>.
\<close>

theorem seq_counter_advances:
  assumes "distinct wordlist"
  shows "successively seq_step (sent (Scan os s wordlist rng)) \<and>
         (\<forall>c\<in>set (sent (Scan os s wordlist rng)).
            uint (call_Seq c) = call_randSeq c mod 2 ^ 32 \<and> 1000000000 < call_randSeq c) \<and>
         (\<exists>seed. 1000000000 \<le> seed \<and> seed < 10000000000 \<and>
            (sent (Scan os s wordlist rng) \<noteq> [] \<longrightarrow>
               1 \<le> call_randSeq (hd (sent (Scan os s wordlist rng))) - seed \<and>
               call_randSeq (hd (sent (Scan os s wordlist rng))) - seed \<le> 5))"
proof (cases rule: Scan_sent_cases [of os s wordlist rng])
  case nothing
  then show ?thesis by (auto intro: exI [of _ 1000000000])
next
  case (emitted tr rawPort)
  define seed where "seed = 1000000000 + fst (Intn (os_gen os) 8999999999 rng)"
  define rng1 where "rng1 = snd (Intn (os_gen os) 8999999999 rng)"
  define lg where "lg = snd (snd (emitter (os_gen os) (os_write os) (retries s)
           (tcp_layer rawPort seed) wordlist (seed, rng1, [])))"
  have sl: "sent (Scan os s wordlist rng) = lg"
    using emitted(2) by (simp add: lg_def seed_def rng1_def)
  have sr: "1000000000 \<le> seed" "seed < 10000000000"
    using Intn_seed_range [of "os_gen os" rng] by (simp_all add: seed_def)
  show ?thesis
  proof (cases "0 < nat (retries s) \<and> wordlist \<noteq> []")
    case False
    then have "lg = []"
      using emitter_no_retries [of "retries s" "os_gen os" "os_write os" "tcp_layer rawPort seed" wordlist seed rng1 "[]"]
      by (auto simp: lg_def)
    with sl show ?thesis by (auto intro: exI [of _ 1000000000])
  next
    case True
    have a: "successively seq_step lg"
      unfolding lg_def using True assms by (intro emitter_successively) auto
    have b: "\<forall>c\<in>set lg. SrcPort (call_tcp c) = word_of_int rawPort \<and>
               Seq (call_tcp c) = word_of_int (call_randSeq c) \<and>
               DstPort (call_tcp c) = word_of_int (call_port c) \<and> seed < call_randSeq c"
      unfolding lg_def by (rule emitter_calls) (simp_all add: tcp_layer_def)
    from emitter_first_call [of "retries s" wordlist "os_gen os" "os_write os" "tcp_layer rawPort seed" seed rng1] True
    obtain r where r: "0 \<le> r" "r < 5" "call_randSeq (hd lg) = seed + (1 + r)" by (auto simp: lg_def)
    have c: "\<forall>c\<in>set lg. uint (call_Seq c) = call_randSeq c mod 2 ^ 32 \<and> 1000000000 < call_randSeq c"
      using b sr by (auto simp: call_Seq_def uint_word_of_int)
    show ?thesis
      unfolding sl using a c sr r by (auto intro!: exI [of _ seed])
  qed
qed

section \<open>Sequence numbers, retries and the source port of a scan\<close>

lemma ex_scan_wrap:
  "map call_Seq (sent (Scan (ex_os [] write_ok gen_wrap) (ex_scanner 1) [80, 443] (Seed 1)))
     = [4294967295, 0]"
  by (simp add: Scan_def scan_setup_def ex_os_def ex_scanner_def Intn_def Seed_def gen_wrap_def
      go_div_def Second_def write_ok_def Let_def tcp_layer_def call_Seq_def call_tcp_def)

text \<open>
  Claim C4, as stated: the 32-bit sequence numbers of successive probes are strictly
  increasing. It fails where \<open>uint32(randSeq)\<close> wraps: with the seed 4294967290 and the
  increments 5 and 1, the probe for port 80 carries \<open>2^32 - 1\<close> and the probe for port 443
  carries 0.
\<close>

theorem seq_not_increasing_counterexample:
  "map call_Seq (sent (Scan (ex_os [] write_ok gen_wrap) (ex_scanner 1) [80, 443] (Seed 1)))
     = [4294967295, 0] \<and> \<not> (4294967295 :: 32 word) < 0"
  using ex_scan_wrap by simp

text \<open>The amended claim C4 on the same scan: \<open>randSeq\<close> itself goes from \<open>2^32 - 1\<close> to \<open>2^32\<close>.\<close>

lemma ex_scan_wrap_counters:
  "map call_randSeq (sent (Scan (ex_os [] write_ok gen_wrap) (ex_scanner 1) [80, 443] (Seed 1)))
     = [4294967295, 4294967296]"
  by (simp add: Scan_def scan_setup_def ex_os_def ex_scanner_def Intn_def Seed_def gen_wrap_def
      go_div_def Second_def write_ok_def Let_def tcp_layer_def call_randSeq_def)

theorem seq_counter_advances_witness:
  "distinct [80, 443 :: int] \<and>
   map call_randSeq (sent (Scan (ex_os [] write_ok gen_wrap) (ex_scanner 1) [80, 443] (Seed 1)))
     = [4294967295, 4294967296] \<and>
   successively seq_step (sent (Scan (ex_os [] write_ok gen_wrap) (ex_scanner 1) [80, 443] (Seed 1)))"
proof -
  have h: "distinct [80, 443 :: int]" by simp
  from seq_counter_advances [OF h, of "ex_os [] write_ok gen_wrap" "ex_scanner 1" "Seed 1"] h
    ex_scan_wrap_counters
  show ?thesis by blast
qed

lemma ex_scan_retry:
  "map call_Seq (sent (Scan (ex_os [] write_fail_first gen_zero) (ex_scanner 2) [80] (Seed 1)))
     = [1000000001, 1000000001]"
  by (simp add: Scan_def scan_setup_def ex_os_def ex_scanner_def Intn_def Seed_def gen_zero_def
      go_div_def Second_def write_fail_first_def Let_def tcp_layer_def call_Seq_def call_tcp_def
      numeral_2_eq_2)

text \<open>
  Claim C3, as stated: for a wordlist of one port and \<open>r\<close> retries, every probe sent for
  the port carries a distinct sequence number. It fails: with two retries and a first
  write that fails, \<open>s.send\<close> is called twice on the same TCP layer, with the same
  sequence number.
\<close>

theorem retries_share_seq_counterexample:
  "map call_Seq (sent (Scan (ex_os [] write_fail_first gen_zero) (ex_scanner 2) [80] (Seed 1)))
     = [1000000001, 1000000001] \<and> \<not> distinct [1000000001, 1000000001 :: 32 word]"
  using ex_scan_retry by simp


text \<open>
  Claim C3, amended. For a wordlist of one port and \<open>r \<ge> 1\<close> retries, \<open>s.send\<close> is called
  at most \<open>r\<close> times, every call on the same TCP layer: the port as destination and one
  sequence number, \<open>randSeq\<close> modulo \<open>2^32\<close>, set once before the retry loop. When the scan
  returns a result set and the tick interval \<open>1s / rate\<close> is positive, there is at least
  one call.
\<close>

theorem single_port_probes_share_seq:
  assumes "1 \<le> retries s"
  shows "\<exists>k c. sent (Scan os s [port] rng) = replicate k c \<and> int k \<le> retries s \<and>
           ((\<exists>results. ret (Scan os s [port] rng) = Returns (Inr results)) \<and>
              0 < go_div Second (rate s) \<longrightarrow>
            1 \<le> k \<and> call_port c = port \<and> DstPort (call_tcp c) = word_of_int port \<and>
            uint (call_Seq c) = call_randSeq c mod 2 ^ 32)"
proof (cases "scan_setup os s")
  case (Pair tr r)
  show ?thesis
  proof (cases r)
    case (Inl err)
    with Pair have "sent (Scan os s [port] rng) = replicate 0 (port, 0, tcp_layer 0 0)"
      "\<not> (\<exists>results. ret (Scan os s [port] rng) = Returns (Inr results))"
      by (simp_all add: Scan_def)
    then show ?thesis using assms by (intro exI [of _ 0] exI [of _ "(port, 0, tcp_layer 0 0)"]) simp
  next
    case (Inr rawPort)
    show ?thesis
    proof (cases "0 < go_div Second (rate s)")
      case False
      with Pair Inr assms have "sent (Scan os s [port] rng) = replicate 0 (port, 0, tcp_layer 0 0)"
        by (auto simp: Scan_def Let_def go_div_def split: prod.splits)
      with False show ?thesis using assms by (intro exI [of _ 0] exI [of _ "(port, 0, tcp_layer 0 0)"]) simp
    next
      case True
      then have rz: "rate s \<noteq> 0" by (auto simp: go_div_def)
      obtain r0 rng1 where i0: "Intn (os_gen os) 8999999999 rng = (r0, rng1)"
        by (cases "Intn (os_gen os) 8999999999 rng")
      obtain r rng2 where i: "Intn (os_gen os) 5 rng1 = (r, rng2)"
        by (cases "Intn (os_gen os) 5 rng1")
      define randSeq1 where "randSeq1 = 1000000000 + r0 + (1 + r)"
      define c where "c = (port, randSeq1,
          (tcp_layer rawPort (1000000000 + r0))\<lparr>Seq := word_of_int randSeq1, DstPort := word_of_int port\<rparr>)"
      from retry_loop_replicate [of "os_write os" c "nat (retries s)" "[]"] assms
      obtain k where k: "retry_loop (os_write os) c (nat (retries s)) [] = replicate k c"
        "k \<le> nat (retries s)" "0 < k" by auto
      have "sent (Scan os s [port] rng) = replicate k c"
        using Pair Inr True rz i0 i k(1)
        by (simp add: Scan_def Let_def c_def randSeq1_def)
      moreover have "int k \<le> retries s" using k(2) assms by simp
      moreover have "call_port c = port" "DstPort (call_tcp c) = word_of_int port"
        "uint (call_Seq c) = call_randSeq c mod 2 ^ 32"
        by (simp_all add: c_def call_port_def call_tcp_def call_Seq_def call_randSeq_def
            uint_word_of_int)
      ultimately show ?thesis using k(3) by (intro exI [of _ k] exI [of _ c]) simp
    qed
  qed
qed


lemma ex_scan_retry_ret:
  "ret (Scan (ex_os [] write_fail_first gen_zero) (ex_scanner 2) [80] (Seed 1)) = Returns (Inr {})"
  by (simp add: Scan_def scan_setup_def ex_os_def ex_scanner_def Intn_def Seed_def gen_zero_def
      go_div_def Second_def Let_def collector_def split: prod.splits)

theorem single_port_probes_share_seq_witness:
  "1 \<le> retries (ex_scanner 2) \<and>
   length (sent (Scan (ex_os [] write_fail_first gen_zero) (ex_scanner 2) [80] (Seed 1))) = 2 \<and>
   (\<exists>k c. sent (Scan (ex_os [] write_fail_first gen_zero) (ex_scanner 2) [80] (Seed 1)) = replicate k c \<and>
      int k \<le> retries (ex_scanner 2) \<and> 1 \<le> k \<and> call_port c = 80)"
proof -
  have h: "1 \<le> retries (ex_scanner 2)" by (simp add: ex_scanner_def)
  have g: "0 < go_div Second (rate (ex_scanner 2))"
    by (simp add: ex_scanner_def go_div_def Second_def)
  have r: "\<exists>results. ret (Scan (ex_os [] write_fail_first gen_zero) (ex_scanner 2) [80] (Seed 1))
             = Returns (Inr results)"
    using ex_scan_retry_ret by blast
  have l: "length (sent (Scan (ex_os [] write_fail_first gen_zero) (ex_scanner 2) [80] (Seed 1))) = 2"
    using arg_cong [OF ex_scan_retry, of length] by simp
  from single_port_probes_share_seq [OF h, of "ex_os [] write_fail_first gen_zero" 80 "Seed 1"] g r h l
  show ?thesis by blast
qed

text \<open>
  Claim C6. A scan that returns a result set has reserved exactly one source port; every
  probe sent carries it as TCP source port; the one BPF filter installed is
  \<open>tcp and port <source_port> and ip host <target_ip>\<close>; and the capture side emits an
  event for a packet only when its TCP destination port is that port.
\<close>

theorem one_source_port_per_scan:
  assumes "ret (Scan os s wordlist rng) = Returns (Inr results)"
  shows "\<exists>rawPort. os_GetFreePort os = Inr rawPort \<and>
     count_list (trace (Scan os s wordlist rng)) (Ok GetFreePort) = 1 \<and>
     (\<forall>c\<in>set (sent (Scan os s wordlist rng)). SrcPort (call_tcp c) = word_of_int rawPort) \<and>
     (\<forall>f. Ok (SetBPFFilter f) \<in> set (trace (Scan os s wordlist rng)) \<longleftrightarrow>
          f = ''tcp and port '' @ fmt_d rawPort @ '' and ip host '' @ ip_String (host s)) \<and>
     results = collector (capture (host s, srcIP s) rawPort (os_reads os)) \<and>
     (\<forall>decoded ip4 tcp. layer_loop (host s, srcIP s) rawPort ip4 tcp decoded \<noteq> [] \<longrightarrow>
          DstPort tcp = word_of_int rawPort)"
proof -
  from Scan_Returns_results [OF assms] obtain tr rawPort where
    st: "scan_setup os s = (tr, Inr rawPort)" and
    res: "results = collector (capture (host s, srcIP s) rawPort (os_reads os))" by blast
  note tr = scan_setup_Inr(7) [OF st]
  have t: "trace (Scan os s wordlist rng) = tr @ closing (timeout s)"
    using Scan_Returns_trace [OF assms] st by simp
  have a: "count_list (trace (Scan os s wordlist rng)) (Ok GetFreePort) = 1"
    unfolding t tr by (simp add: closing_def)
  have b: "Ok (SetBPFFilter f) \<in> set (trace (Scan os s wordlist rng)) \<longleftrightarrow>
          f = ''tcp and port '' @ fmt_d rawPort @ '' and ip host '' @ ip_String (host s)" for f
    unfolding t tr by (auto simp: closing_def)
  have c: "\<forall>c\<in>set (sent (Scan os s wordlist rng)). SrcPort (call_tcp c) = word_of_int rawPort"
  proof (cases rule: Scan_sent_cases [of os s wordlist rng])
    case nothing
    then show ?thesis by simp
  next
    case (emitted tr' rawPort')
    with st have eq: "rawPort' = rawPort" by simp
    define seed where "seed = 1000000000 + fst (Intn (os_gen os) 8999999999 rng)"
    from emitter_calls [of "tcp_layer rawPort seed" "word_of_int rawPort" seed seed "[]"
        "os_gen os" "os_write os" "retries s" wordlist "snd (Intn (os_gen os) 8999999999 rng)"]
    show ?thesis unfolding emitted(2) eq seed_def by (simp add: tcp_layer_def)
  qed
  have d: "DstPort tcp = word_of_int rawPort"
    if "layer_loop (host s, srcIP s) rawPort ip4 tcp decoded \<noteq> []" for decoded ip4 tcp
  proof -
    from that have "set (layer_loop (host s, srcIP s) rawPort ip4 tcp decoded) \<noteq> {}" by simp
    then show ?thesis by (simp add: set_layer_loop split: if_splits)
  qed
  from scan_setup_Inr(4) [OF st] a b c d res show ?thesis by blast
qed

theorem one_source_port_per_scan_witness:
  "\<exists>rawPort. os_GetFreePort (ex_os [ex_synack (IP4 10 0 0 1) 443] write_ok gen_zero) = Inr rawPort \<and>
     count_list (trace (Scan (ex_os [ex_synack (IP4 10 0 0 1) 443] write_ok gen_zero) (ex_scanner 1) [80] (Seed 1))) (Ok GetFreePort) = 1 \<and>
     (\<forall>c\<in>set (sent (Scan (ex_os [ex_synack (IP4 10 0 0 1) 443] write_ok gen_zero) (ex_scanner 1) [80] (Seed 1))).
        SrcPort (call_tcp c) = word_of_int rawPort) \<and>
     (\<forall>f. Ok (SetBPFFilter f) \<in> set (trace (Scan (ex_os [ex_synack (IP4 10 0 0 1) 443] write_ok gen_zero) (ex_scanner 1) [80] (Seed 1))) \<longleftrightarrow>
          f = ''tcp and port '' @ fmt_d rawPort @ '' and ip host '' @ ip_String (host (ex_scanner 1))) \<and>
     {443} = collector (capture (host (ex_scanner 1), srcIP (ex_scanner 1)) rawPort
               (os_reads (ex_os [ex_synack (IP4 10 0 0 1) 443] write_ok gen_zero))) \<and>
     (\<forall>decoded ip4 tcp. layer_loop (host (ex_scanner 1), srcIP (ex_scanner 1)) rawPort ip4 tcp decoded \<noteq> [] \<longrightarrow>
          DstPort tcp = word_of_int rawPort)"
  by (rule one_source_port_per_scan [OF ex_scan_unprobed_port])

lemma ex_bpf_string:
  "''tcp and port '' @ fmt_d 40000 @ '' and ip host '' @ ip_String (host (ex_scanner 1))
     = ''tcp and port 40000 and ip host 10.0.0.1''"
  by (simp add: fmt_d_def digit_def ex_scanner_def)

section \<open>The global PRNG across \<open>NewScanner\<close> and \<open>Scan\<close>\<close>

lemma Intn_rng:
  "snd (Intn gen n rng) = rng\<lparr>rng_pos := rng_pos rng + 1\<rparr>"
  "fst (Intn gen n rng) = int (gen (rng_seed rng) (rng_pos rng)) mod n"
  by (simp_all add: Intn_def)

lemma emitter_rng:
  "fst (snd (emitter gen write n_retries tcp ports (randSeq, rng, lg))) =
     rng\<lparr>rng_pos := rng_pos rng + length ports\<rparr>"
proof (induction ports arbitrary: tcp randSeq rng lg)
  case Nil
  then show ?case by simp
next
  case (Cons port ports)
  show ?case
    by (simp add: Let_def Intn_def Cons.IH split: prod.splits)
qed

lemma emitter_first_randSeq:
  assumes "0 < nat n_retries" and "ports \<noteq> []"
  shows "call_randSeq (hd (snd (snd (emitter gen write n_retries tcp ports (randSeq, rng, []))))) =
           randSeq + (1 + fst (Intn gen 5 rng))"
proof -
  from assms(2) obtain port rest where p: "ports = port # rest" by (cases ports) auto
  obtain r rng1 where i: "Intn gen 5 rng = (r, rng1)" by (cases "Intn gen 5 rng")
  define tcp1 where "tcp1 = tcp\<lparr>Seq := word_of_int (randSeq + (1 + r)), DstPort := word_of_int port\<rparr>"
  define c where "c = (port, randSeq + (1 + r), tcp1)"
  from retry_loop_replicate [of "write" c "nat n_retries" "[]"] assms(1)
  obtain k where k: "retry_loop write c (nat n_retries) [] = replicate k c" "0 < k" by auto
  from emitter_appends [of gen "write" n_retries tcp1 rest "randSeq + (1 + r)" rng1 "replicate k c"]
  obtain ext where e: "snd (snd (emitter gen write n_retries tcp1 rest
      (randSeq + (1 + r), rng1, replicate k c))) = replicate k c @ ext" by blast
  have "snd (snd (emitter gen write n_retries tcp ports (randSeq, rng, []))) = replicate k c @ ext"
    using p i k(1) e by (simp add: Let_def c_def tcp1_def)
  moreover have "hd (replicate k c @ ext) = c" using k(2) by (cases k) simp_all
  ultimately show ?thesis using i by (simp add: c_def call_randSeq_def)
qed

lemma emitter_rng_result:
  assumes "emitter gen write n_retries tcp ports (randSeq, rng, lg) = (randSeq', rng', lg')"
  shows "rng_seed rng' = rng_seed rng" "rng_pos rng' = rng_pos rng + length ports"
  using emitter_rng [of gen "write" n_retries tcp ports randSeq rng lg] assms by simp_all

lemma Scan_rng_seed: "rng_seed (rng_after (Scan os s wordlist rng)) = rng_seed rng"
proof (cases "scan_setup os s")
  case (Pair tr r)
  show ?thesis
  proof (cases r)
    case (Inl err)
    with Pair show ?thesis by (simp add: Scan_def)
  next
    case (Inr rawPort)
    with Pair show ?thesis
      by (auto simp: Scan_def Let_def Intn_def split: prod.splits dest!: emitter_rng_result(1))
  qed
qed

lemma Scan_rng_pos:
  assumes "scan_setup os s = (tr, Inr rawPort)"
  shows "rng_pos rng < rng_pos (rng_after (Scan os s wordlist rng))"
  using assms
  by (auto simp: Scan_def Let_def Intn_def split: prod.splits dest!: emitter_rng_result(2))

lemma Scan_first_randSeq:
  assumes "sent (Scan os s wordlist rng) \<noteq> []"
  shows "call_randSeq (hd (sent (Scan os s wordlist rng))) =
           1000000000 + int (os_gen os (rng_seed rng) (rng_pos rng)) mod 8999999999 +
           (1 + int (os_gen os (rng_seed rng) (rng_pos rng + 1)) mod 5)"
proof (cases rule: Scan_sent_cases [of os s wordlist rng])
  case nothing
  with assms show ?thesis by simp
next
  case (emitted tr rawPort)
  define seed where "seed = 1000000000 + fst (Intn (os_gen os) 8999999999 rng)"
  define rng1 where "rng1 = snd (Intn (os_gen os) 8999999999 rng)"
  define lg where "lg = snd (snd (emitter (os_gen os) (os_write os) (retries s)
           (tcp_layer rawPort seed) wordlist (seed, rng1, [])))"
  have sl: "sent (Scan os s wordlist rng) = lg"
    using emitted(2) by (simp add: lg_def seed_def rng1_def)
  have n: "0 < nat (retries s) \<and> wordlist \<noteq> []"
  proof (rule ccontr)
    assume "\<not> ?thesis"
    then have "lg = []"
      using emitter_no_retries [of "retries s" "os_gen os" "os_write os" "tcp_layer rawPort seed" wordlist seed rng1 "[]"]
      by (auto simp: lg_def)
    with sl assms show False by simp
  qed
  from emitter_first_randSeq [of "retries s" wordlist "os_gen os" "os_write os" "tcp_layer rawPort seed" seed rng1] n
  have "call_randSeq (hd lg) = seed + (1 + fst (Intn (os_gen os) 5 rng1))" by (simp add: lg_def)
  then show ?thesis unfolding sl by (simp add: seed_def rng1_def Intn_def)
qed

lemma ex_first_randSeq_before:
  "map call_randSeq (sent (Scan (ex_os [] write_ok gen_seeded) (ex_scanner 1) [80] \<lparr>rng_seed = 1, rng_pos = 3\<rparr>))
     = [1000000005]"
  by (simp add: Scan_def scan_setup_def ex_os_def ex_scanner_def Intn_def gen_seeded_def
      go_div_def Second_def write_ok_def Let_def tcp_layer_def call_randSeq_def)

lemma ex_first_randSeq_after:
  "map call_randSeq (sent (Scan (ex_os [] write_ok gen_seeded) (ex_scanner 1) [80]
      (fst (NewScanner ex_net_ok 42 \<lparr>rng_seed = 1, rng_pos = 3\<rparr> (IP4 10 0 0 1) 1 1 100))))
     = [1000000046]"
  by (simp add: fst_NewScanner Scan_def scan_setup_def ex_os_def ex_scanner_def Intn_def Seed_def
      gen_seeded_def go_div_def Second_def write_ok_def Let_def tcp_layer_def call_randSeq_def)

lemma ex_new_scanner_state:
  "fst (NewScanner ex_net_ok 42 \<lparr>rng_seed = 1, rng_pos = 3\<rparr> (IP4 10 0 0 1) 1 1 100)
     = \<lparr>rng_seed = 42, rng_pos = 0\<rparr> \<and>
   isl (snd (NewScanner ex_net_ok 42 \<lparr>rng_seed = 1, rng_pos = 3\<rparr> (IP4 10 0 0 1) 1 1 100)) = False"
  by (simp add: NewScanner_def getSourceIP_def getInterfaceFromIP_def ex_net_ok_def HasPrefix_def
      Seed_def digit_def)

text \<open>
  Claim C9, as stated: constructing a scanner does not re-seed or mutate the global
  PRNG, and cannot change the random values another scan observes. It fails: the first
  statement of \<open>NewScanner\<close> is \<open>rand.Seed(time.Now().UnixNano())\<close>, and \<open>Scan\<close> draws from
  the global source. Here the global source, seeded with 1 and three draws old, is reset
  by a successful construction at time 42, and the first probe of the same scan carries
  another sequence counter after the construction than before it.
\<close>

theorem new_scanner_reseeds_counterexample:
  "fst (NewScanner ex_net_ok 42 \<lparr>rng_seed = 1, rng_pos = 3\<rparr> (IP4 10 0 0 1) 1 1 100)
     = \<lparr>rng_seed = 42, rng_pos = 0\<rparr> \<and>
   \<lparr>rng_seed = 42, rng_pos = 0\<rparr> \<noteq> \<lparr>rng_seed = 1, rng_pos = 3\<rparr> \<and>
   isl (snd (NewScanner ex_net_ok 42 \<lparr>rng_seed = 1, rng_pos = 3\<rparr> (IP4 10 0 0 1) 1 1 100)) = False \<and>
   map call_randSeq (sent (Scan (ex_os [] write_ok gen_seeded) (ex_scanner 1) [80]
      \<lparr>rng_seed = 1, rng_pos = 3\<rparr>)) = [1000000005] \<and>
   map call_randSeq (sent (Scan (ex_os [] write_ok gen_seeded) (ex_scanner 1) [80]
      (fst (NewScanner ex_net_ok 42 \<lparr>rng_seed = 1, rng_pos = 3\<rparr> (IP4 10 0 0 1) 1 1 100))))
     = [1000000046]"
  using ex_new_scanner_state ex_first_randSeq_before ex_first_randSeq_after by simp

text \<open>
  Claim C9, amended. Every call of \<open>NewScanner\<close>, whatever it returns, re-seeds the
  process-global PRNG with the current time in nanoseconds. \<open>Scan\<close> has no PRNG of its
  own: it never seeds, it draws from the global source it finds and leaves it advanced
  (by at least one draw once the setup has succeeded), and the sequence counter of its
  first probe is computed from the seed and the position of that global source. So in a
  scan that follows a construction at time \<open>now\<close>, the counter of the first probe is
  determined by \<open>now\<close>.
\<close>

theorem new_scanner_reseeds_global_prng:
  "fst (NewScanner net now rng h t n_retries n_rate) = Seed now \<and>
   rng_seed (rng_after (Scan os s wordlist rng')) = rng_seed rng' \<and>
   (\<forall>tr rawPort. scan_setup os s = (tr, Inr rawPort) \<longrightarrow>
      rng_pos rng' < rng_pos (rng_after (Scan os s wordlist rng'))) \<and>
   (sent (Scan os s wordlist rng') \<noteq> [] \<longrightarrow>
      call_randSeq (hd (sent (Scan os s wordlist rng'))) =
        1000000000 + int (os_gen os (rng_seed rng') (rng_pos rng')) mod 8999999999 +
        (1 + int (os_gen os (rng_seed rng') (rng_pos rng' + 1)) mod 5)) \<and>
   (sent (Scan os s wordlist (fst (NewScanner net now rng h t n_retries n_rate))) \<noteq> [] \<longrightarrow>
      call_randSeq (hd (sent (Scan os s wordlist (fst (NewScanner net now rng h t n_retries n_rate))))) =
        1000000000 + int (os_gen os now 0) mod 8999999999 + (1 + int (os_gen os now 1) mod 5))"
proof -
  have a: "fst (NewScanner net now rng h t n_retries n_rate) = Seed now" by (rule fst_NewScanner)
  have d: "sent (Scan os s wordlist (Seed now)) \<noteq> [] \<Longrightarrow>
      call_randSeq (hd (sent (Scan os s wordlist (Seed now)))) =
        1000000000 + int (os_gen os now 0) mod 8999999999 + (1 + int (os_gen os now 1) mod 5)"
    using Scan_first_randSeq [of os s wordlist "Seed now"] by (simp add: Seed_def)
  show ?thesis
    unfolding a using Scan_rng_seed [of os s wordlist rng'] Scan_rng_pos [of os s _ _ rng' wordlist]
      Scan_first_randSeq [of os s wordlist rng'] d
    by blast
qed

theorem new_scanner_reseeds_global_prng_witness:
  "fst (NewScanner ex_net_ok 42 \<lparr>rng_seed = 1, rng_pos = 3\<rparr> (IP4 10 0 0 1) 1 1 100) = Seed 42 \<and>
   scan_setup (ex_os [] write_ok gen_seeded) (ex_scanner 1) =
     (fst (scan_setup (ex_os [] write_ok gen_seeded) (ex_scanner 1)), Inr 40000) \<and>
   rng_pos \<lparr>rng_seed = 1, rng_pos = 3\<rparr> <
     rng_pos (rng_after (Scan (ex_os [] write_ok gen_seeded) (ex_scanner 1) [80] \<lparr>rng_seed = 1, rng_pos = 3\<rparr>)) \<and>
   sent (Scan (ex_os [] write_ok gen_seeded) (ex_scanner 1) [80]
      (fst (NewScanner ex_net_ok 42 \<lparr>rng_seed = 1, rng_pos = 3\<rparr> (IP4 10 0 0 1) 1 1 100))) \<noteq> [] \<and>
   call_randSeq (hd (sent (Scan (ex_os [] write_ok gen_seeded) (ex_scanner 1) [80]
      (fst (NewScanner ex_net_ok 42 \<lparr>rng_seed = 1, rng_pos = 3\<rparr> (IP4 10 0 0 1) 1 1 100))))) =
     1000000000 + int (os_gen (ex_os [] write_ok gen_seeded) 42 0) mod 8999999999 +
     (1 + int (os_gen (ex_os [] write_ok gen_seeded) 42 1) mod 5)"
proof -
  have st: "scan_setup (ex_os [] write_ok gen_seeded) (ex_scanner 1) =
     (fst (scan_setup (ex_os [] write_ok gen_seeded) (ex_scanner 1)), Inr 40000)"
    by (simp add: scan_setup_def ex_os_def)
  have ne: "sent (Scan (ex_os [] write_ok gen_seeded) (ex_scanner 1) [80]
      (fst (NewScanner ex_net_ok 42 \<lparr>rng_seed = 1, rng_pos = 3\<rparr> (IP4 10 0 0 1) 1 1 100))) \<noteq> []"
    using ex_first_randSeq_after by auto
  note T = new_scanner_reseeds_global_prng [of ex_net_ok 42 "\<lparr>rng_seed = 1, rng_pos = 3\<rparr>"
      "IP4 10 0 0 1" 1 1 100 "ex_os [] write_ok gen_seeded" "ex_scanner 1" "[80]"
      "\<lparr>rng_seed = 1, rng_pos = 3\<rparr>"]
  from T st ne show ?thesis by blast
qed

end
